theory Spec2Isabelle
  imports Main
begin

section \<open>The symbol table of mathscript (src/mathscript/symtable.cpp)\<close>

text \<open>
  A \<open>SymTable\<close> is a scope node: a map of variables, a map of functions and a raw
  pointer to the enclosing table (\<open>nullptr\<close> at the global table). Tables are
  created with \<open>new\<close> and released with \<open>delete\<close>, and they point at each other,
  so the embedding keeps an explicit store: a list of cells indexed by address. A
  cell is \<open>Some t\<close> while the table is alive and \<open>None\<close> once it is deleted;
  \<open>new\<close> appends a cell, so a fresh address is never one that is in use.
\<close>

subsection \<open>Data\<close>

type_synonym addr = nat

text \<open>
  Exceptions are values. \<open>UndeclaredVariableError\<close> and \<open>EvaluationError\<close> are the
  two classes of errors.h; \<open>bad_variant_access\<close> is what \<open>std::get\<close> throws on the
  wrong alternative; \<open>invalid_pointer\<close> marks the dereference of an address that
  holds no live table, which C++ leaves undefined.
\<close>

datatype error =
    UndeclaredVariableError string
  | EvaluationError string
  | bad_variant_access
  | invalid_pointer

text \<open>
  \<open>Result\<close> is declared in a header that is not part of the sources at hand. The
  code builds it as \<open>Result{Result::Type::kSingle, obj}\<close> and reads a
  \<open>std::vector<ObjPtr>\<close> out of its variant member \<open>data\<close>; \<open>kOther\<close> stands for
  the tags of the enumeration that symtable.cpp never names. The value handle
  \<open>ObjPtr\<close> is the type parameter \<open>'v\<close>.
\<close>

datatype Type = kSingle | kOther

datatype 'v Data = Single 'v | Sequence "'v list"

record 'v Result =
  type :: Type
  data :: "'v Data"

text \<open>
  An entry of the functions map is a variant: alternative 0 is a native callable
  (\<open>Function\<close>), the other a \<open>FunctionDef\<close> holding the statement block and the
  parameters, in the order of the aggregate \<open>FunctionDef{statements, params}\<close>. A
  parameter is represented by its \<open>name\<close>, the only member the code reads. The
  statement block is an opaque node of type \<open>'b\<close>. A native callable receives
  the arguments only: it returns a result or throws, and has no access to the
  tables.
\<close>

datatype ('v, 'b) func =
    Function "'v list \<Rightarrow> error + 'v Result"
  | FunctionDef 'b "string list"

record ('v, 'b) SymTable =
  variables :: "string \<rightharpoonup> 'v"
  "functions" :: "string \<rightharpoonup> ('v, 'b) func"
  parent :: "addr option"

type_synonym ('v, 'b) heap = "('v, 'b) SymTable option list"

definition deref :: "('v, 'b) heap \<Rightarrow> addr \<Rightarrow> ('v, 'b) SymTable option" where
  "deref h a = (if a < length h then h ! a else None)"

text \<open>
  The evaluator of statement blocks lives outside this file. It receives the block,
  the store and the address of the table to evaluate in; it may change the store,
  throw, or never return (\<open>None\<close>).
\<close>

type_synonym ('v, 'b) outcome = "(('v, 'b) heap \<times> (error + 'v Result)) option"

type_synonym ('v, 'b) evaluator = "'b \<Rightarrow> ('v, 'b) heap \<Rightarrow> addr \<Rightarrow> ('v, 'b) outcome"

subsection \<open>Variables\<close>

text \<open>
  \<open>FindVariable\<close>, lines 16 to 25. The loop variable \<open>node\<close> starts at \<open>this\<close>;
  after a miss line 22 assigns \<open>this->parent\<close> to it. The loop need not end, so
  the result is an option and \<open>None\<close> means that the call never returns.
\<close>

partial_function (option) FindVariable_loop ::
  "('v, 'b) heap \<Rightarrow> addr \<Rightarrow> addr option \<Rightarrow> string \<Rightarrow> (error + 'v) option" where
  "FindVariable_loop h this node name =
     (case node of
        None \<Rightarrow> Some (Inl (UndeclaredVariableError name))
      | Some a \<Rightarrow>
          (case deref h a of
             None \<Rightarrow> Some (Inl invalid_pointer)
           | Some t \<Rightarrow>
               (case variables t name of
                  Some v \<Rightarrow> Some (Inr v)
                | None \<Rightarrow>
                    (case deref h this of
                       None \<Rightarrow> Some (Inl invalid_pointer)
                     | Some t0 \<Rightarrow> FindVariable_loop h this (parent t0) name))))"

definition FindVariable :: "('v, 'b) heap \<Rightarrow> addr \<Rightarrow> string \<Rightarrow> (error + 'v) option" where
  "FindVariable h this name = FindVariable_loop h this (Some this) name"

text \<open>\<open>RecFindVariable\<close>, lines 35 to 42: the recursion follows \<open>node.parent\<close>.\<close>

partial_function (option) RecFindVariable ::
  "('v, 'b) heap \<Rightarrow> addr \<Rightarrow> string \<Rightarrow> (error + 'v) option" where
  "RecFindVariable h node name =
     (case deref h node of
        None \<Rightarrow> Some (Inl invalid_pointer)
      | Some t \<Rightarrow>
          (case variables t name of
             Some v \<Rightarrow> Some (Inr v)
           | None \<Rightarrow>
               (case parent t of
                  None \<Rightarrow> Some (Inl (UndeclaredVariableError name))
                | Some p \<Rightarrow> RecFindVariable h p name)))"

text \<open>The store after \<open>node->variables[name] = obj\<close>.\<close>

definition set_variable ::
  "('v, 'b) heap \<Rightarrow> addr \<Rightarrow> string \<Rightarrow> 'v \<Rightarrow> ('v, 'b) heap" where
  "set_variable h node name obj =
     (case deref h node of
        None \<Rightarrow> h
      | Some t \<Rightarrow> h[node := Some (t\<lparr>variables := (variables t)(name \<mapsto> obj)\<rparr>)])"

text \<open>\<open>AssignVariable\<close>, lines 49 to 51.\<close>

definition AssignVariable ::
  "('v, 'b) heap \<Rightarrow> addr \<Rightarrow> string \<Rightarrow> 'v \<Rightarrow> error + ('v, 'b) heap" where
  "AssignVariable h this name obj =
     (case deref h this of
        None \<Rightarrow> Inl invalid_pointer
      | Some t \<Rightarrow> Inr (set_variable h this name obj))"

subsection \<open>Calls\<close>

text \<open>
  One pass through the body of the loop of \<open>ExecuteFunction\<close> either leaves the
  function, by \<open>return\<close> or \<open>throw\<close>, or reaches line 96 and moves to the parent.
\<close>

datatype 'r step = Exit 'r | Next

text \<open>
  Lines 62 to 73: at the table without a parent, a native entry is run, a missing
  entry is an error, and a \<open>FunctionDef\<close> entry is left to the lines below.
\<close>

definition global_check ::
  "('v, 'b) heap \<Rightarrow> ('v, 'b) SymTable \<Rightarrow> string \<Rightarrow> 'v list \<Rightarrow> ('v, 'b) outcome step" where
  "global_check h t name args =
     (if parent t = None then
        (case functions t name of
           Some func \<Rightarrow>
             (case func of
                Function f \<Rightarrow> Exit (Some (h, f args))
              | FunctionDef statements params \<Rightarrow> Next)
         | None \<Rightarrow>
             Exit (Some (h, Inl (EvaluationError
               (''function '' @ [CHR 0x27] @ name @ [CHR 0x27] @ '' not defined!'')))))
      else Next)"

text \<open>
  Lines 85 to 87: the parameters are stored one index after the other. The loop runs
  after the check of line 81, so \<open>args[i]\<close> is in range; the \<open>int\<close> index of the
  source is taken not to overflow.
\<close>

definition load_variables ::
  "('v, 'b) heap \<Rightarrow> addr \<Rightarrow> string list \<Rightarrow> 'v list \<Rightarrow> ('v, 'b) heap" where
  "load_variables h newNode params args =
     fold (\<lambda>i h'. set_variable h' newNode (params ! i) (args ! i)) [0..<length params] h"

text \<open>
  Lines 88 to 94, applied to what the evaluator gave for the body: an exception of
  the body passes through, \<open>std::get\<close> insists on the vector alternative, an empty
  vector is an error, and otherwise the frame is deleted and the last element
  returned. Only the last path reaches \<open>delete newNode\<close>.
\<close>

definition finish_call :: "addr \<Rightarrow> ('v, 'b) outcome \<Rightarrow> ('v, 'b) outcome" where
  "finish_call newNode r =
     (case r of
        None \<Rightarrow> None
      | Some (h, Inl e) \<Rightarrow> Some (h, Inl e)
      | Some (h, Inr res) \<Rightarrow>
          (case data res of
             Single v \<Rightarrow> Some (h, Inl bad_variant_access)
           | Sequence eval \<Rightarrow>
               if eval = [] then
                 Some (h, Inl (EvaluationError ''function didn't return anything''))
               else
                 Some (h[newNode := None],
                       Inr \<lparr>type = kSingle, data = Single (eval ! (length eval - 1))\<rparr>)))"

text \<open>
  Lines 76 to 94 (and again 124 to 142): the call of the entry found in a table.
  \<open>new SymTable\<close> appends a table with empty maps, and line 78 makes \<open>this\<close> its
  parent.
\<close>

definition user_call ::
  "('v, 'b) evaluator \<Rightarrow> ('v, 'b) heap \<Rightarrow> addr \<Rightarrow> ('v, 'b) func \<Rightarrow> 'v list \<Rightarrow> ('v, 'b) outcome"
  where
  "user_call eval h this func args =
     (case func of
        Function f \<Rightarrow> Some (h, Inl bad_variant_access)
      | FunctionDef statements params \<Rightarrow>
          (let newNode = length h;
               h1 = h @ [Some \<lparr>variables = Map.empty, functions = Map.empty,
                                parent = Some this\<rparr>]
           in if length params \<noteq> length args then
                Some (h1, Inl (EvaluationError ''didn't get expected arguments''))
              else
                finish_call newNode
                  (eval statements (load_variables h1 newNode params args) newNode)))"

text \<open>Lines 62 to 95, for the table \<open>t\<close> that \<open>node\<close> points at.\<close>

definition ExecuteFunction_body ::
  "('v, 'b) evaluator \<Rightarrow> ('v, 'b) heap \<Rightarrow> addr \<Rightarrow> ('v, 'b) SymTable \<Rightarrow> string \<Rightarrow> 'v list
     \<Rightarrow> ('v, 'b) outcome step" where
  "ExecuteFunction_body eval h this t name args =
     (case global_check h t name args of
        Exit r \<Rightarrow> Exit r
      | Next \<Rightarrow>
          (case functions t name of
             Some func \<Rightarrow> Exit (user_call eval h this func args)
           | None \<Rightarrow> Next))"

text \<open>\<open>ExecuteFunction\<close>, lines 59 to 99; line 96 follows \<open>node->parent\<close>.\<close>

partial_function (option) ExecuteFunction_loop ::
  "('v, 'b) evaluator \<Rightarrow> ('v, 'b) heap \<Rightarrow> addr \<Rightarrow> addr option \<Rightarrow> string \<Rightarrow> 'v list
     \<Rightarrow> (('v, 'b) heap \<times> (error + 'v Result)) option" where
  "ExecuteFunction_loop eval h this node name args =
     (case node of
        None \<Rightarrow>
          Some (h, Inl (EvaluationError ''did not expect to get here in execution stack''))
      | Some a \<Rightarrow>
          (case deref h a of
             None \<Rightarrow> Some (h, Inl invalid_pointer)
           | Some t \<Rightarrow>
               (case ExecuteFunction_body eval h this t name args of
                  Exit r \<Rightarrow> r
                | Next \<Rightarrow> ExecuteFunction_loop eval h this (parent t) name args)))"

definition ExecuteFunction ::
  "('v, 'b) evaluator \<Rightarrow> ('v, 'b) heap \<Rightarrow> addr \<Rightarrow> string \<Rightarrow> 'v list \<Rightarrow> ('v, 'b) outcome" where
  "ExecuteFunction eval h this name args =
     ExecuteFunction_loop eval h this (Some this) name args"

text \<open>
  \<open>RecExecuteFunction\<close>, lines 108 to 145. Its lines 110 to 143 repeat lines 62 to
  95 with \<open>node.\<close> for \<open>node->\<close>; line 144 dereferences \<open>node.parent\<close>.
\<close>

partial_function (option) RecExecuteFunction ::
  "('v, 'b) evaluator \<Rightarrow> ('v, 'b) heap \<Rightarrow> addr \<Rightarrow> addr \<Rightarrow> string \<Rightarrow> 'v list
     \<Rightarrow> (('v, 'b) heap \<times> (error + 'v Result)) option" where
  "RecExecuteFunction eval h this node name args =
     (case deref h node of
        None \<Rightarrow> Some (h, Inl invalid_pointer)
      | Some t \<Rightarrow>
          (case ExecuteFunction_body eval h this t name args of
             Exit r \<Rightarrow> r
           | Next \<Rightarrow>
               (case parent t of
                  None \<Rightarrow> Some (h, Inl invalid_pointer)
                | Some p \<Rightarrow> RecExecuteFunction eval h this p name args)))"

subsection \<open>Environment chains\<close>

text \<open>
  \<open>is_chain h a as\<close>: following the parent pointers from \<open>a\<close> visits exactly the
  live tables \<open>as\<close>, the last of which has no parent.
\<close>

fun is_chain :: "('v, 'b) heap \<Rightarrow> addr \<Rightarrow> addr list \<Rightarrow> bool" where
  "is_chain h a [] = False"
| "is_chain h a (b # bs) =
     (a = b \<and>
      (case deref h a of
         None \<Rightarrow> False
       | Some t \<Rightarrow> (case parent t of None \<Rightarrow> bs = [] | Some p \<Rightarrow> is_chain h p bs)))"

definition is_root :: "('v, 'b) heap \<Rightarrow> addr \<Rightarrow> bool" where
  "is_root h a = (case deref h a of None \<Rightarrow> False | Some t \<Rightarrow> parent t = None)"

text \<open>
  The resolution order the specification describes: scan the tables from the call
  site outward and take the first one whose functions map has the name.
\<close>

fun nearest_registration ::
  "('v, 'b) heap \<Rightarrow> addr list \<Rightarrow> string \<Rightarrow> (addr \<times> ('v, 'b) func) option" where
  "nearest_registration h [] name = None"
| "nearest_registration h (a # as) name =
     (case deref h a of
        None \<Rightarrow> None
      | Some t \<Rightarrow>
          (case functions t name of
             Some func \<Rightarrow> Some (a, func)
           | None \<Rightarrow> nearest_registration h as name))"

text \<open>
  The call frame the specification describes: every parameter bound to the argument
  at its position (a later occurrence of a repeated name overrides an earlier one),
  no functions, and the call site as parent.
\<close>

definition call_frame :: "addr \<Rightarrow> string list \<Rightarrow> 'v list \<Rightarrow> ('v, 'b) SymTable" where
  "call_frame this params args =
     \<lparr>variables = map_of (rev (zip params args)), functions = Map.empty, parent = Some this\<rparr>"

text \<open>
  What the specification asks of a variable lookup: the binding of the first table,
  from the current one toward the root, that has the name.
\<close>

fun nearest_binding :: "('v, 'b) heap \<Rightarrow> addr list \<Rightarrow> string \<Rightarrow> 'v option" where
  "nearest_binding h [] name = None"
| "nearest_binding h (a # as) name =
     (case deref h a of
        None \<Rightarrow> None
      | Some t \<Rightarrow>
          (case variables t name of
             Some v \<Rightarrow> Some v
           | None \<Rightarrow> nearest_binding h as name))"

text \<open>
  What a call amounts to on a chain: the nearest registration decides. A native
  entry is run when its table is the global one; in any other table \<open>std::get\<close>
  rejects it. A \<open>FunctionDef\<close> entry is called wherever it is found.
\<close>

definition dispatch ::
  "('v, 'b) evaluator \<Rightarrow> ('v, 'b) heap \<Rightarrow> addr \<Rightarrow> addr list \<Rightarrow> string \<Rightarrow> 'v list \<Rightarrow> ('v, 'b) outcome"
  where
  "dispatch eval h this chain name args =
     (case nearest_registration h chain name of
        None \<Rightarrow>
          Some (h, Inl (EvaluationError
            (''function '' @ [CHR 0x27] @ name @ [CHR 0x27] @ '' not defined!'')))
      | Some (d, func) \<Rightarrow>
          (case func of
             Function f \<Rightarrow>
               if is_root h d then Some (h, f args) else Some (h, Inl bad_variant_access)
           | FunctionDef statements params \<Rightarrow> user_call eval h this func args))"

text \<open>
  The errors the specification documents for this component are the two classes of
  errors.h. \<open>returns_or_documented\<close> holds of a returned value and of a documented
  error; \<open>sequence_or_documented\<close> holds of an evaluation that comes back with a
  result holding a sequence, or with a documented error. \<open>native_only_at_root\<close> is
  the invariant of the specification's data model for one name: a table of the chain
  that registers a native callable under the name has no parent.
\<close>

fun documented :: "error \<Rightarrow> bool" where
  "documented (UndeclaredVariableError n) = True"
| "documented (EvaluationError m) = True"
| "documented bad_variant_access = False"
| "documented invalid_pointer = False"

definition returns_or_documented :: "error + 'r \<Rightarrow> bool" where
  "returns_or_documented x = (case x of Inl e \<Rightarrow> documented e | Inr r \<Rightarrow> True)"

definition sequence_or_documented :: "('v, 'b) outcome \<Rightarrow> bool" where
  "sequence_or_documented r =
     (case r of
        None \<Rightarrow> False
      | Some (h, Inl e) \<Rightarrow> documented e
      | Some (h, Inr res) \<Rightarrow> (case data res of Single v \<Rightarrow> False | Sequence vs \<Rightarrow> True))"

definition native_only_at_root :: "('v, 'b) heap \<Rightarrow> addr list \<Rightarrow> string \<Rightarrow> bool" where
  "native_only_at_root h chain name =
     list_all
       (\<lambda>a. case deref h a of
              None \<Rightarrow> True
            | Some t \<Rightarrow>
                (case functions t name of
                   None \<Rightarrow> True
                 | Some func \<Rightarrow>
                     (case func of
                        Function f \<Rightarrow> parent t = None
                      | FunctionDef statements params \<Rightarrow> True)))
       chain"

subsection \<open>Example stores\<close>

text \<open>
  Three nested tables: the global table at address 0 binds \<open>x\<close> to 7, the table at
  1 is its child and the table at 2 its grandchild; neither binds anything.
\<close>

definition env3 :: "(nat, unit) heap" where
  "env3 =
     [Some \<lparr>variables = [''x'' \<mapsto> 7], functions = Map.empty, parent = None\<rparr>,
      Some \<lparr>variables = Map.empty, functions = Map.empty, parent = Some 0\<rparr>,
      Some \<lparr>variables = Map.empty, functions = Map.empty, parent = Some 1\<rparr>]"

text \<open>
  A store for calls: the global table at 0 registers a native \<open>f\<close> and a user
  function \<open>h\<close> of two parameters; its child at 1 registers a user function \<open>f\<close>
  of one parameter; the grandchild at 2 registers nothing.
\<close>

definition env_calls :: "(nat, nat) heap" where
  "env_calls =
     [Some \<lparr>variables = [''g'' \<mapsto> 1],
            functions = [''f'' \<mapsto> Function (\<lambda>args. Inr \<lparr>type = kSingle, data = Single 0\<rparr>),
                         ''h'' \<mapsto> FunctionDef 5 [''a'', ''b'']],
            parent = None\<rparr>,
      Some \<lparr>variables = Map.empty,
            functions = [''f'' \<mapsto> FunctionDef 6 [''a'']],
            parent = Some 0\<rparr>,
      Some \<lparr>variables = [''y'' \<mapsto> 9], functions = Map.empty, parent = Some 1\<rparr>]"

text \<open>
  Evaluators used as examples: one whose blocks always yield the values 1, 2, 3, one
  whose blocks yield nothing, one that yields the parent pointer of the table it
  runs in, and one that yields the value of the variable \<open>a\<close> of that table.
\<close>

definition eval_123 :: "(nat, nat) evaluator" where
  "eval_123 b h a = Some (h, Inr \<lparr>type = kOther, data = Sequence [1, 2, 3]\<rparr>)"

definition eval_empty :: "(nat, nat) evaluator" where
  "eval_empty b h a = Some (h, Inr \<lparr>type = kOther, data = Sequence []\<rparr>)"

definition eval_parent :: "(nat, nat) evaluator" where
  "eval_parent b h a =
     (case deref h a of
        None \<Rightarrow> Some (h, Inl invalid_pointer)
      | Some t \<Rightarrow>
          Some (h, Inr \<lparr>type = kOther,
                        data = Sequence (case parent t of None \<Rightarrow> [] | Some p \<Rightarrow> [p])\<rparr>))"

definition eval_param :: "(nat, nat) evaluator" where
  "eval_param b h a =
     (case deref h a of
        None \<Rightarrow> Some (h, Inl invalid_pointer)
      | Some t \<Rightarrow>
          (case variables t ''a'' of
             None \<Rightarrow> Some (h, Inl (UndeclaredVariableError ''a''))
           | Some v \<Rightarrow> Some (h, Inr \<lparr>type = kOther, data = Sequence [v]\<rparr>)))"

text \<open>
  Two more evaluators: one whose blocks yield a result holding a single value, and
  one that never comes back.
\<close>

definition eval_single :: "(nat, nat) evaluator" where
  "eval_single b h a = Some (h, Inr \<lparr>type = kSingle, data = Single 1\<rparr>)"

definition eval_never :: "(nat, nat) evaluator" where
  "eval_never b h a = None"

section \<open>Variable lookup\<close>

text \<open>
  What \<open>FindVariable\<close> computes: the current table and its parent are searched; when
  both miss and the parent is not null, the loop stays at the parent.
\<close>

lemma FindVariable_loop_stuck:
  assumes "FindVariable_loop h this node name = Some y"
  shows "\<forall>t0 p tp. deref h this = Some t0 \<longrightarrow> parent t0 = Some p \<longrightarrow>
           deref h p = Some tp \<longrightarrow> variables tp name = None \<longrightarrow> node \<noteq> Some p"
proof (rule FindVariable_loop.raw_induct[where P = "\<lambda>h this node name y.
    \<forall>t0 p tp. deref h this = Some t0 \<longrightarrow> parent t0 = Some p \<longrightarrow>
           deref h p = Some tp \<longrightarrow> variables tp name = None \<longrightarrow> node \<noteq> Some p", OF _ assms])
  fix f and h :: "('a, 'b) heap" and this node name y
  assume IH: "\<And>h this node name y. f h this node name = Some y \<Longrightarrow>
    \<forall>t0 p tp. deref h this = Some t0 \<longrightarrow> parent t0 = Some p \<longrightarrow>
           deref h p = Some tp \<longrightarrow> variables tp name = None \<longrightarrow> node \<noteq> Some p"
    and body: "(case node of
        None \<Rightarrow> Some (Inl (UndeclaredVariableError name))
      | Some a \<Rightarrow>
          (case deref h a of
             None \<Rightarrow> Some (Inl invalid_pointer)
           | Some t \<Rightarrow>
               (case variables t name of
                  Some v \<Rightarrow> Some (Inr v)
                | None \<Rightarrow>
                    (case deref h this of
                       None \<Rightarrow> Some (Inl invalid_pointer)
                     | Some t0 \<Rightarrow> f h this (parent t0) name)))) = Some y"
  show "\<forall>t0 p tp. deref h this = Some t0 \<longrightarrow> parent t0 = Some p \<longrightarrow>
           deref h p = Some tp \<longrightarrow> variables tp name = None \<longrightarrow> node \<noteq> Some p"
  proof (intro allI impI notI)
    fix t0 p tp
    assume a: "deref h this = Some t0" "parent t0 = Some p" "deref h p = Some tp"
      "variables tp name = None" "node = Some p"
    with body have "f h this (Some p) name = Some y" by simp
    from IH[OF this] a show False by simp
  qed
qed

lemma FindVariable_loop_diverges:
  assumes "deref h this = Some t0" "parent t0 = Some p" "deref h p = Some tp" "variables tp name = None"
  shows "FindVariable_loop h this (Some p) name = None"
  using FindVariable_loop_stuck[of h this "Some p" name] assms
  by (cases "FindVariable_loop h this (Some p) name") auto

lemma FindVariable_local_hit:
  "deref h this = Some t \<Longrightarrow> variables t name = Some v \<Longrightarrow>
   FindVariable h this name = Some (Inr v)"
  by (simp add: FindVariable_def FindVariable_loop.simps)

lemma FindVariable_root_miss:
  "deref h this = Some t \<Longrightarrow> variables t name = None \<Longrightarrow> parent t = None \<Longrightarrow>
   FindVariable h this name = Some (Inl (UndeclaredVariableError name))"
  by (simp add: FindVariable_def FindVariable_loop.simps)

lemma FindVariable_parent_hit:
  "deref h this = Some t \<Longrightarrow> variables t name = None \<Longrightarrow> parent t = Some p \<Longrightarrow>
   deref h p = Some tp \<Longrightarrow> variables tp name = Some v \<Longrightarrow>
   FindVariable h this name = Some (Inr v)"
  by (simp add: FindVariable_def FindVariable_loop.simps)

lemma FindVariable_parent_miss:
  assumes "deref h this = Some t" "variables t name = None" "parent t = Some p"
    "deref h p = Some tp" "variables tp name = None"
  shows "FindVariable h this name = None"
proof -
  have "FindVariable h this name = FindVariable_loop h this (Some p) name"
    using assms by (simp add: FindVariable_def FindVariable_loop.simps[of h this "Some this"])
  then show ?thesis
    using FindVariable_loop_diverges[OF assms(1) assms(3) assms(4) assms(5)] by simp
qed

lemma RecFindVariable_chain:
  "is_chain h a as \<Longrightarrow>
   RecFindVariable h a name =
     Some (case nearest_binding h as name of
             None \<Rightarrow> Inl (UndeclaredVariableError name)
           | Some v \<Rightarrow> Inr v)"
proof (induction as arbitrary: a)
  case Nil
  then show ?case by simp
next
  case (Cons b bs)
  from Cons.prems obtain t where t: "a = b" "deref h b = Some t"
    by (auto split: option.splits)
  show ?case
  proof (cases "variables t name")
    case (Some v)
    with t show ?thesis by (simp add: RecFindVariable.simps[of h b])
  next
    case None
    show ?thesis
    proof (cases "parent t")
      case None': None
      with Cons.prems t have "bs = []" by simp
      with None None' t show ?thesis by (simp add: RecFindVariable.simps[of h b])
    next
      case (Some p)
      with Cons.prems t have "is_chain h p bs" by simp
      from Cons.IH[OF this] None Some t show ?thesis
        by (simp add: RecFindVariable.simps[of h b])
    qed
  qed
qed

lemma env3_chain: "is_chain env3 2 [2, 1, 0]"
  by (simp add: env3_def deref_def)

text \<open>
  Claim C1 asks that \<open>FindVariable\<close> searches the current table and then every
  ancestor up to the root, and returns the nearest binding. In \<open>env3\<close> the chain
  from table 2 is 2, 1, 0 and the nearest binding of \<open>x\<close> is the 7 of the global
  table, yet the call \<open>FindVariable("x")\<close> on table 2 never returns: line 22 sets
  \<open>node\<close> to \<open>this->parent\<close> again and again, so the grandparent is never visited.
\<close>

theorem FindVariable_misses_grandparent_binding:
  "is_chain env3 2 [2, 1, 0] \<and> nearest_binding env3 [2, 1, 0] ''x'' = Some 7 \<and>
   FindVariable env3 2 ''x'' = None"
proof -
  have "FindVariable env3 2 ''x'' = None"
    by (rule FindVariable_parent_miss[where p = 1]) (simp add: env3_def deref_def)+
  then show ?thesis by (simp add: env3_def deref_def)
qed

text \<open>
  Claim C2 asks that the iterative and the recursive lookup agree on every chain
  and name. On table 2 of \<open>env3\<close> and the name \<open>x\<close> the recursive lookup returns
  the global binding 7 and the iterative one does not return.
\<close>

theorem FindVariable_differs_from_RecFindVariable:
  "RecFindVariable env3 2 ''x'' = Some (Inr 7) \<and>
   FindVariable env3 2 ''x'' \<noteq> RecFindVariable env3 2 ''x''"
proof -
  have 1: "FindVariable env3 2 ''x'' = None"
    by (rule FindVariable_parent_miss[where p = 1]) (simp add: env3_def deref_def)+
  have 2: "RecFindVariable env3 2 ''x'' = Some (Inr 7)"
    using RecFindVariable_chain[OF env3_chain, of "''x''"] by (simp add: env3_def deref_def)
  from 1 2 show ?thesis by simp
qed

text \<open>
  Claim C3 asks that \<open>FindVariable\<close> runs to completion on every finite chain,
  returning a handle or throwing \<open>UndeclaredVariableError\<close>. On the two-table chain
  1, 0 of \<open>env3\<close>, where no table binds \<open>y\<close>, the call \<open>FindVariable("y")\<close> on
  table 1 does neither: the loop revisits the parent forever.
\<close>

theorem FindVariable_does_not_terminate:
  "is_chain env3 1 [1, 0] \<and> nearest_binding env3 [1, 0] ''y'' = None \<and>
   FindVariable env3 1 ''y'' = None"
proof -
  have "FindVariable env3 1 ''y'' = None"
    by (rule FindVariable_parent_miss[where p = 0]) (simp add: env3_def deref_def)+
  then show ?thesis by (simp add: env3_def deref_def)
qed

section \<open>Function calls\<close>

subsection \<open>The call frame\<close>

lemma deref_append_new: "deref (h @ [c]) (length h) = c"
  by (simp add: deref_def)

lemma deref_append_old: "a < length h \<Longrightarrow> deref (h @ [c]) a = deref h a"
  by (simp add: deref_def nth_append)

lemma set_variable_new:
  "set_variable (h @ [Some fr]) (length h) name obj =
     h @ [Some (fr\<lparr>variables := (variables fr)(name \<mapsto> obj)\<rparr>)]"
  by (simp add: set_variable_def deref_append_new)

lemma map_add_map_of_Cons:
  "m ++ map_of ((x, y) # l) = (m ++ map_of l)(x \<mapsto> y)"
  by (rule ext) (simp add: map_add_def)

lemma fold_set_variable_new:
  "k \<le> length ps \<Longrightarrow> length ps = length args \<Longrightarrow>
   fold (\<lambda>i h'. set_variable h' (length h) (ps ! i) (args ! i)) [0..<k] (h @ [Some fr]) =
     h @ [Some (fr\<lparr>variables :=
                  variables fr ++ map_of (rev (zip (take k ps) (take k args)))\<rparr>)]"
proof (induction k)
  case 0
  then show ?case by simp
next
  case (Suc k)
  define V where "V = variables fr ++ map_of (rev (zip (take k ps) (take k args)))"
  define V' where
    "V' = variables fr ++ map_of (rev (zip (take (Suc k) ps) (take (Suc k) args)))"
  from Suc.prems have "zip (take (Suc k) ps) (take (Suc k) args) =
      zip (take k ps) (take k args) @ [(ps ! k, args ! k)]"
    by (simp add: take_Suc_conv_app_nth)
  then have V': "V' = V(ps ! k \<mapsto> args ! k)"
    unfolding V_def V'_def
    by (simp only: rev_append rev.simps append.simps map_add_map_of_Cons)
  from Suc have IH: "fold (\<lambda>i h'. set_variable h' (length h) (ps ! i) (args ! i)) [0..<k]
      (h @ [Some fr]) = h @ [Some (fr\<lparr>variables := V\<rparr>)]"
    by (simp add: V_def)
  have "fold (\<lambda>i h'. set_variable h' (length h) (ps ! i) (args ! i)) [0..<Suc k]
      (h @ [Some fr]) =
      set_variable (h @ [Some (fr\<lparr>variables := V\<rparr>)]) (length h) (ps ! k) (args ! k)"
    by (simp add: IH)
  also have "\<dots> = h @ [Some (fr\<lparr>variables := V(ps ! k \<mapsto> args ! k)\<rparr>)]"
    by (simp add: set_variable_new)
  also have "\<dots> = h @ [Some (fr\<lparr>variables := V'\<rparr>)]"
    by (simp only: V')
  finally show ?case by (simp only: V'_def)
qed

lemma load_variables_new:
  assumes "length ps = length args"
  shows "load_variables
           (h @ [Some \<lparr>variables = Map.empty, functions = Map.empty, parent = Some this\<rparr>])
           (length h) ps args =
         h @ [Some (call_frame this ps args)]"
  using fold_set_variable_new[of "length ps" ps args h] assms
  by (simp add: load_variables_def call_frame_def)

lemma user_call_matching:
  "length ps = length args \<Longrightarrow>
   user_call eval h this (FunctionDef b ps) args =
     finish_call (length h) (eval b (h @ [Some (call_frame this ps args)]) (length h))"
  by (simp add: user_call_def Let_def load_variables_new)

lemma user_call_mismatch:
  "length ps \<noteq> length args \<Longrightarrow>
   user_call eval h this (FunctionDef b ps) args =
     Some (h @ [Some \<lparr>variables = Map.empty, functions = Map.empty, parent = Some this\<rparr>],
           Inl (EvaluationError ''didn't get expected arguments''))"
  by (simp add: user_call_def Let_def)

subsection \<open>The scan of the chain\<close>

lemma ExecuteFunction_loop_chain:
  "is_chain h a as \<Longrightarrow>
   ExecuteFunction_loop eval h this (Some a) name args = dispatch eval h this as name args"
proof (induction as arbitrary: a)
  case Nil
  then show ?case by simp
next
  case (Cons b bs)
  from Cons.prems obtain t where t: "a = b" "deref h b = Some t"
    by (auto split: option.splits)
  show ?case
  proof (cases "functions t name")
    case None
    show ?thesis
    proof (cases "parent t")
      case None': None
      with Cons.prems t have "bs = []" by simp
      with None None' t show ?thesis
        by (simp add: ExecuteFunction_loop.simps[of eval h this "Some b"] dispatch_def
            ExecuteFunction_body_def global_check_def)
    next
      case (Some p)
      with Cons.prems t have "is_chain h p bs" by simp
      from Cons.IH[OF this] None Some t show ?thesis
        by (simp add: ExecuteFunction_loop.simps[of eval h this "Some b"] dispatch_def
            ExecuteFunction_body_def global_check_def)
    qed
  next
    case (Some func)
    with t show ?thesis
      by (cases func)
        (auto simp add: ExecuteFunction_loop.simps[of eval h this "Some b"] dispatch_def
          ExecuteFunction_body_def global_check_def is_root_def user_call_def)
  qed
qed

lemma RecExecuteFunction_chain:
  "is_chain h a as \<Longrightarrow>
   RecExecuteFunction eval h this a name args = dispatch eval h this as name args"
proof (induction as arbitrary: a)
  case Nil
  then show ?case by simp
next
  case (Cons b bs)
  from Cons.prems obtain t where t: "a = b" "deref h b = Some t"
    by (auto split: option.splits)
  show ?case
  proof (cases "functions t name")
    case None
    show ?thesis
    proof (cases "parent t")
      case None': None
      with Cons.prems t have "bs = []" by simp
      with None None' t show ?thesis
        by (simp add: RecExecuteFunction.simps[of eval h this b] dispatch_def
            ExecuteFunction_body_def global_check_def)
    next
      case (Some p)
      with Cons.prems t have "is_chain h p bs" by simp
      from Cons.IH[OF this] None Some t show ?thesis
        by (simp add: RecExecuteFunction.simps[of eval h this b] dispatch_def
            ExecuteFunction_body_def global_check_def)
    qed
  next
    case (Some func)
    with t show ?thesis
      by (cases func)
        (auto simp add: RecExecuteFunction.simps[of eval h this b] dispatch_def
          ExecuteFunction_body_def global_check_def is_root_def user_call_def)
  qed
qed

lemma env_calls_chain: "is_chain env_calls 2 [2, 1, 0]"
  by (simp add: env_calls_def deref_def)

lemma env_calls_f: "nearest_registration env_calls [2, 1, 0] ''f'' = Some (1, FunctionDef 6 [''a''])"
  by (simp add: env_calls_def deref_def)

lemma env_calls_h:
  "nearest_registration env_calls [2, 1, 0] ''h'' = Some (0, FunctionDef 5 [''a'', ''b''])"
  by (simp add: env_calls_def deref_def)

text \<open>
  Claim C4: a call resolves the name by scanning the chain from the call site
  outward. The first table whose functions map has the name decides: a user
  function registered there is called, whatever the tables further out (the global
  one included) register under that name; a native entry is run only when that
  table is the root; and when no table of the chain has the name the call fails
  with the \<open>EvaluationError\<close> that names the function.
\<close>

theorem ExecuteFunction_resolution:
  assumes "is_chain h this chain"
  shows "ExecuteFunction eval h this name args =
     (case nearest_registration h chain name of
        None \<Rightarrow>
          Some (h, Inl (EvaluationError
            (''function '' @ [CHR 0x27] @ name @ [CHR 0x27] @ '' not defined!'')))
      | Some (d, func) \<Rightarrow>
          (case func of
             Function f \<Rightarrow>
               if is_root h d then Some (h, f args) else Some (h, Inl bad_variant_access)
           | FunctionDef statements params \<Rightarrow>
               user_call eval h this (FunctionDef statements params) args))"
  using ExecuteFunction_loop_chain[OF assms, of eval this name args]
  by (simp add: ExecuteFunction_def dispatch_def split: option.splits func.splits)

theorem ExecuteFunction_resolution_witness:
  "is_chain env_calls 2 [2, 1, 0] \<and>
   map_option snd (ExecuteFunction eval_123 env_calls 2 ''f'' [7]) =
     Some (Inr \<lparr>type = kSingle, data = Single 3\<rparr>) \<and>
   map_option snd (ExecuteFunction eval_123 env_calls 0 ''f'' [7]) =
     Some (Inr \<lparr>type = kSingle, data = Single 0\<rparr>) \<and>
   map_option snd (ExecuteFunction eval_123 env_calls 2 ''k'' [7]) =
     Some (Inl (EvaluationError ''function 'k' not defined!''))"
proof -
  have 0: "is_chain env_calls 0 [0]" by (simp add: env_calls_def deref_def)
  have 1: "nearest_registration env_calls [0] ''f'' =
      Some (0, Function (\<lambda>args. Inr \<lparr>type = kSingle, data = Single 0\<rparr>))"
    by (simp add: env_calls_def deref_def)
  have 2: "nearest_registration env_calls [2, 1, 0] ''k'' = None"
    by (simp add: env_calls_def deref_def)
  have 3: "is_root env_calls 0" by (simp add: env_calls_def deref_def is_root_def)
  have "ExecuteFunction eval_123 env_calls 2 ''f'' [7] =
      user_call eval_123 env_calls 2 (FunctionDef 6 [''a'']) [7]"
    using ExecuteFunction_resolution[OF env_calls_chain, of eval_123 "''f''" "[7]"]
    by (simp only: env_calls_f option.case prod.case func.case)
  then have a: "map_option snd (ExecuteFunction eval_123 env_calls 2 ''f'' [7]) =
      Some (Inr \<lparr>type = kSingle, data = Single 3\<rparr>)"
    by (simp add: user_call_matching finish_call_def eval_123_def)
  have b: "map_option snd (ExecuteFunction eval_123 env_calls 0 ''f'' [7]) =
      Some (Inr \<lparr>type = kSingle, data = Single 0\<rparr>)"
    using ExecuteFunction_resolution[OF 0, of eval_123 "''f''" "[7]"]
    by (simp only: 1 3 option.case prod.case func.case if_True option.map snd_conv)
  have c: "map_option snd (ExecuteFunction eval_123 env_calls 2 ''k'' [7]) =
      Some (Inl (EvaluationError ''function 'k' not defined!''))"
    using ExecuteFunction_resolution[OF env_calls_chain, of eval_123 "''k''" "[7]"]
    by (simp only: 2 option.case option.map snd_conv) simp
  from env_calls_chain a b c show ?thesis by simp
qed

subsection \<open>User-defined calls\<close>

lemma ExecuteFunction_user:
  assumes "is_chain h this chain"
    and "nearest_registration h chain name = Some (d, FunctionDef b ps)"
  shows "ExecuteFunction eval h this name args = user_call eval h this (FunctionDef b ps) args"
  using ExecuteFunction_loop_chain[OF assms(1), of eval this name args] assms(2)
  by (simp add: ExecuteFunction_def dispatch_def)

lemma RecExecuteFunction_user:
  assumes "is_chain h this chain"
    and "nearest_registration h chain name = Some (d, FunctionDef b ps)"
  shows "RecExecuteFunction eval h this this name args =
    user_call eval h this (FunctionDef b ps) args"
  using RecExecuteFunction_chain[OF assms(1), of eval this name args] assms(2)
  by (simp add: dispatch_def)

text \<open>
  Claim C5: when a call resolves to a user function, the arity matches and the
  evaluation of the body in the call frame yields a sequence of values, an empty
  sequence makes the call fail with \<open>EvaluationError\<close>, and otherwise the call
  returns the last value of the sequence as a \<open>kSingle\<close> result.
\<close>

theorem ExecuteFunction_returns_last_value:
  assumes "is_chain h this chain"
    and "nearest_registration h chain name = Some (d, FunctionDef b ps)"
    and "length ps = length args"
    and "eval b (h @ [Some (call_frame this ps args)]) (length h) = Some (h', Inr r)"
    and "data r = Sequence vs"
  shows "ExecuteFunction eval h this name args =
     (if vs = [] then Some (h', Inl (EvaluationError ''function didn't return anything''))
      else Some (h'[length h := None], Inr \<lparr>type = kSingle, data = Single (last vs)\<rparr>))"
  using assms(3-5)
  by (simp add: ExecuteFunction_user[OF assms(1,2)] user_call_matching finish_call_def
      last_conv_nth)

theorem ExecuteFunction_returns_last_value_witness:
  "is_chain env_calls 2 [2, 1, 0] \<and>
   nearest_registration env_calls [2, 1, 0] ''h'' = Some (0, FunctionDef 5 [''a'', ''b'']) \<and>
   eval_123 5 (env_calls @ [Some (call_frame 2 [''a'', ''b''] [4, 5])]) (length env_calls) =
     Some (env_calls @ [Some (call_frame 2 [''a'', ''b''] [4, 5])],
           Inr \<lparr>type = kOther, data = Sequence [1, 2, 3]\<rparr>) \<and>
   ExecuteFunction eval_123 env_calls 2 ''h'' [4, 5] =
     Some (env_calls @ [None], Inr \<lparr>type = kSingle, data = Single 3\<rparr>) \<and>
   ExecuteFunction eval_empty env_calls 2 ''h'' [4, 5] =
     Some (env_calls @ [Some (call_frame 2 [''a'', ''b''] [4, 5])],
           Inl (EvaluationError ''function didn't return anything''))"
proof -
  let ?fr = "call_frame 2 [''a'', ''b''] [4, 5] :: (nat, nat) SymTable"
  have e: "eval_123 5 (env_calls @ [Some ?fr]) (length env_calls) =
      Some (env_calls @ [Some ?fr], Inr \<lparr>type = kOther, data = Sequence [1, 2, 3]\<rparr>)"
    by (simp add: eval_123_def)
  have e0: "eval_empty 5 (env_calls @ [Some ?fr]) (length env_calls) =
      Some (env_calls @ [Some ?fr], Inr \<lparr>type = kOther, data = Sequence []\<rparr>)"
    by (simp add: eval_empty_def)
  have a: "ExecuteFunction eval_123 env_calls 2 ''h'' [4, 5] =
      Some (env_calls @ [None], Inr \<lparr>type = kSingle, data = Single 3\<rparr>)"
    using ExecuteFunction_returns_last_value[where eval = eval_123 and vs = "[1, 2, 3]",
        OF env_calls_chain env_calls_h _ e]
    by simp
  have b: "ExecuteFunction eval_empty env_calls 2 ''h'' [4, 5] =
      Some (env_calls @ [Some ?fr], Inl (EvaluationError ''function didn't return anything''))"
    using ExecuteFunction_returns_last_value[where eval = eval_empty and vs = "[]",
        OF env_calls_chain env_calls_h _ e0]
    by simp
  from env_calls_chain env_calls_h e a b show ?thesis by simp
qed

text \<open>
  Claim C6: for a call that resolves to a user function, in whichever table \<open>d\<close> of
  the chain the definition was found, the body is evaluated in a store \<open>H\<close> that
  keeps every table of the caller's store and has one new table, the call frame,
  whose parent is \<open>this\<close>, the table the call was made on. The same store serves
  every evaluator, and both \<open>ExecuteFunction\<close> and \<open>RecExecuteFunction\<close> use it.
\<close>

theorem call_frame_parent_is_call_site:
  assumes "is_chain h this chain"
    and "nearest_registration h chain name = Some (d, FunctionDef b ps)"
    and "length ps = length args"
  shows "\<exists>H fr. deref H (length h) = Some fr \<and> parent fr = Some this \<and>
           (\<forall>a<length h. deref H a = deref h a) \<and>
           (\<forall>eval. ExecuteFunction eval h this name args =
                     finish_call (length h) (eval b H (length h)) \<and>
                   RecExecuteFunction eval h this this name args =
                     finish_call (length h) (eval b H (length h)))"
proof (intro exI conjI allI impI)
  show "deref (h @ [Some (call_frame this ps args)]) (length h) = Some (call_frame this ps args)"
    by (rule deref_append_new)
  show "parent (call_frame this ps args :: ('a, 'b) SymTable) = Some this"
    by (simp add: call_frame_def)
  show "deref (h @ [Some (call_frame this ps args)]) a = deref h a" if "a < length h" for a
    using that by (rule deref_append_old)
  show "ExecuteFunction eval h this name args =
      finish_call (length h) (eval b (h @ [Some (call_frame this ps args)]) (length h))" for eval
    by (simp add: ExecuteFunction_user[OF assms(1,2)] user_call_matching[OF assms(3)])
  show "RecExecuteFunction eval h this this name args =
      finish_call (length h) (eval b (h @ [Some (call_frame this ps args)]) (length h))" for eval
    by (simp add: RecExecuteFunction_user[OF assms(1,2)] user_call_matching[OF assms(3)])
qed

theorem call_frame_parent_is_call_site_witness:
  "is_chain env_calls 2 [2, 1, 0] \<and>
   nearest_registration env_calls [2, 1, 0] ''f'' = Some (1, FunctionDef 6 [''a'']) \<and>
   map_option snd (ExecuteFunction eval_parent env_calls 2 ''f'' [7]) =
     Some (Inr \<lparr>type = kSingle, data = Single 2\<rparr>) \<and>
   map_option snd (RecExecuteFunction eval_parent env_calls 2 2 ''f'' [7]) =
     Some (Inr \<lparr>type = kSingle, data = Single 2\<rparr>)"
proof -
  have len: "length env_calls = 3" by (simp add: env_calls_def)
  from call_frame_parent_is_call_site[OF env_calls_chain env_calls_f, of "[7]"]
  obtain H fr where H: "deref H 3 = Some fr" "parent fr = Some 2"
    and 1: "ExecuteFunction eval_parent env_calls 2 ''f'' [7] =
        finish_call 3 (eval_parent 6 H 3)"
    and 2: "RecExecuteFunction eval_parent env_calls 2 2 ''f'' [7] =
        finish_call 3 (eval_parent 6 H 3)"
    by (auto simp add: len)
  from H have "map_option snd (finish_call 3 (eval_parent 6 H 3)) =
      Some (Inr \<lparr>type = kSingle, data = Single 2\<rparr>)"
    by (simp add: eval_parent_def finish_call_def)
  with 1 2 env_calls_chain env_calls_f show ?thesis by simp
qed

subsection \<open>Arity and parameter binding\<close>

lemma map_of_rev_zip_take:
  "k \<le> length ps \<Longrightarrow> length ps = length args \<Longrightarrow> i < k \<Longrightarrow>
   (\<forall>j<k. i < j \<longrightarrow> ps ! j \<noteq> ps ! i) \<Longrightarrow>
   map_of (rev (zip (take k ps) (take k args))) (ps ! i) = Some (args ! i)"
proof (induction k)
  case 0
  then show ?case by simp
next
  case (Suc k)
  from Suc.prems have z: "zip (take (Suc k) ps) (take (Suc k) args) =
      zip (take k ps) (take k args) @ [(ps ! k, args ! k)]"
    by (simp add: take_Suc_conv_app_nth)
  show ?case
  proof (cases "i = k")
    case True
    with z show ?thesis by simp
  next
    case False
    with Suc.prems have i: "i < k" and later: "\<forall>j<k. i < j \<longrightarrow> ps ! j \<noteq> ps ! i"
      by auto
    from i Suc.prems have "ps ! k \<noteq> ps ! i" by simp
    then have neq: "ps ! i \<noteq> ps ! k" by (rule not_sym)
    from Suc.IH i later Suc.prems have "map_of (rev (zip (take k ps) (take k args))) (ps ! i) =
        Some (args ! i)"
      by simp
    with z neq show ?thesis by simp
  qed
qed

lemma call_frame_binds:
  assumes "length ps = length args" "i < length ps" "\<forall>j<length ps. i < j \<longrightarrow> ps ! j \<noteq> ps ! i"
  shows "variables (call_frame this ps args) (ps ! i) = Some (args ! i)"
  using map_of_rev_zip_take[of "length ps" ps args i] assms by (simp add: call_frame_def)

lemma call_frame_dom:
  "length ps = length args \<Longrightarrow> dom (variables (call_frame this ps args)) = set ps"
proof -
  assume "length ps = length args"
  then have "map fst (zip ps args) = ps" by (rule map_fst_zip)
  then have "set (map fst (zip ps args)) = set ps" by (rule arg_cong)
  then show ?thesis by (simp add: call_frame_def dom_map_of_conv_image_fst)
qed

lemma finish_call_EvaluationError:
  "(\<exists>h' m. finish_call n E = Some (h', Inl (EvaluationError m))) \<longleftrightarrow>
   (\<exists>h' m. E = Some (h', Inl (EvaluationError m))) \<or>
   (\<exists>h' r. E = Some (h', Inr r) \<and> data r = Sequence [])"
  by (auto simp add: finish_call_def split: option.splits sum.splits Data.splits prod.splits)

text \<open>
  Claim C7: for a call that resolves to a user function with parameters \<open>ps\<close>, a
  number of arguments different from the number of parameters makes the call fail
  with \<open>EvaluationError\<close>. With the same number, the call goes on to evaluate the
  body in a frame that binds exactly the parameter names, each to the argument at
  its position (for a name that occurs more than once, at its last position), and
  the call then fails with an \<open>EvaluationError\<close> exactly when the body itself
  throws one or yields an empty sequence.
\<close>

theorem ExecuteFunction_arity:
  fixes h :: "('v, 'b) heap"
  assumes "is_chain h this chain"
    and "nearest_registration h chain name = Some (d, FunctionDef b ps)"
  shows "(length args \<noteq> length ps \<longrightarrow>
            (\<exists>h'. ExecuteFunction eval h this name args =
               Some (h', Inl (EvaluationError ''didn't get expected arguments'')))) \<and>
         (length args = length ps \<longrightarrow>
            ExecuteFunction eval h this name args =
              finish_call (length h)
                (eval b (h @ [Some (call_frame this ps args)]) (length h)) \<and>
            dom (variables (call_frame this ps args :: ('v, 'b) SymTable)) = set ps \<and>
            (\<forall>i<length ps. (\<forall>j<length ps. i < j \<longrightarrow> ps ! j \<noteq> ps ! i) \<longrightarrow>
               variables (call_frame this ps args :: ('v, 'b) SymTable) (ps ! i) =
                 Some (args ! i)) \<and>
            ((\<exists>h' m. ExecuteFunction eval h this name args =
                 Some (h', Inl (EvaluationError m))) \<longleftrightarrow>
             (\<exists>h' m. eval b (h @ [Some (call_frame this ps args)]) (length h) =
                 Some (h', Inl (EvaluationError m))) \<or>
             (\<exists>h' r. eval b (h @ [Some (call_frame this ps args)]) (length h) =
                 Some (h', Inr r) \<and> data r = Sequence [])))"
proof (intro conjI impI)
  assume "length args \<noteq> length ps"
  then show "\<exists>h'. ExecuteFunction eval h this name args =
      Some (h', Inl (EvaluationError ''didn't get expected arguments''))"
    by (simp add: ExecuteFunction_user[OF assms] user_call_mismatch)
next
  assume len: "length args = length ps"
  then show call: "ExecuteFunction eval h this name args =
      finish_call (length h) (eval b (h @ [Some (call_frame this ps args)]) (length h))"
    by (simp add: ExecuteFunction_user[OF assms] user_call_matching)
  from len show "dom (variables (call_frame this ps args :: ('v, 'b) SymTable)) = set ps"
    by (simp add: call_frame_dom)
  from len show "\<forall>i<length ps. (\<forall>j<length ps. i < j \<longrightarrow> ps ! j \<noteq> ps ! i) \<longrightarrow>
      variables (call_frame this ps args :: ('v, 'b) SymTable) (ps ! i) = Some (args ! i)"
    by (simp add: call_frame_binds)
  show "(\<exists>h' m. ExecuteFunction eval h this name args = Some (h', Inl (EvaluationError m))) \<longleftrightarrow>
      (\<exists>h' m. eval b (h @ [Some (call_frame this ps args)]) (length h) =
          Some (h', Inl (EvaluationError m))) \<or>
      (\<exists>h' r. eval b (h @ [Some (call_frame this ps args)]) (length h) =
          Some (h', Inr r) \<and> data r = Sequence [])"
    unfolding call by (rule finish_call_EvaluationError)
qed

theorem ExecuteFunction_arity_witness:
  "is_chain env_calls 2 [2, 1, 0] \<and>
   nearest_registration env_calls [2, 1, 0] ''h'' = Some (0, FunctionDef 5 [''a'', ''b'']) \<and>
   map_option snd (ExecuteFunction eval_param env_calls 2 ''h'' [4]) =
     Some (Inl (EvaluationError ''didn't get expected arguments'')) \<and>
   map_option snd (ExecuteFunction eval_param env_calls 2 ''h'' [4, 5, 6]) =
     Some (Inl (EvaluationError ''didn't get expected arguments'')) \<and>
   map_option snd (ExecuteFunction eval_param env_calls 2 ''h'' [4, 5]) =
     Some (Inr \<lparr>type = kSingle, data = Single 4\<rparr>)"
proof -
  note inst = ExecuteFunction_arity[OF env_calls_chain env_calls_h, where eval = eval_param]
  have 1: "map_option snd (ExecuteFunction eval_param env_calls 2 ''h'' [4]) =
      Some (Inl (EvaluationError ''didn't get expected arguments''))"
    using inst[of "[4]"] by auto
  have 3: "map_option snd (ExecuteFunction eval_param env_calls 2 ''h'' [4, 5, 6]) =
      Some (Inl (EvaluationError ''didn't get expected arguments''))"
    using inst[of "[4, 5, 6]"] by auto
  have "ExecuteFunction eval_param env_calls 2 ''h'' [4, 5] =
      finish_call (length env_calls)
        (eval_param 5 (env_calls @ [Some (call_frame 2 [''a'', ''b''] [4, 5])])
           (length env_calls))"
    using inst[of "[4, 5]"] by simp
  then have 2: "map_option snd (ExecuteFunction eval_param env_calls 2 ''h'' [4, 5]) =
      Some (Inr \<lparr>type = kSingle, data = Single 4\<rparr>)"
    by (simp add: eval_param_def deref_append_new call_frame_def finish_call_def)
  from env_calls_chain env_calls_h 1 2 3 show ?thesis by simp
qed

text \<open>
  Claim C9 asks that the call frame is released on every exit path of a user call,
  the error paths included. In \<open>env_calls\<close> the function \<open>h\<close> has two parameters
  and the frame of a call is the table at address \<open>length env_calls\<close>. Called with
  one argument, the call throws at line 82 and the frame is still live; called with
  two arguments and a body that yields nothing, it throws at line 90 and the frame
  is still live: both \<open>throw\<close> statements come before the \<open>delete newNode\<close> of line
  92. Only the call that returns a value leaves the frame deleted.
\<close>

theorem call_frame_leaks_on_error:
  "(\<exists>h'. ExecuteFunction eval_123 env_calls 2 ''h'' [4] =
           Some (h', Inl (EvaluationError ''didn't get expected arguments'')) \<and>
         deref h' (length env_calls) \<noteq> None) \<and>
   (\<exists>h'. ExecuteFunction eval_empty env_calls 2 ''h'' [4, 5] =
           Some (h', Inl (EvaluationError ''function didn't return anything'')) \<and>
         deref h' (length env_calls) \<noteq> None) \<and>
   (\<exists>h'. ExecuteFunction eval_123 env_calls 2 ''h'' [4, 5] =
           Some (h', Inr \<lparr>type = kSingle, data = Single 3\<rparr>) \<and>
         deref h' (length env_calls) = None)"
proof (intro conjI)
  show "\<exists>h'. ExecuteFunction eval_123 env_calls 2 ''h'' [4] =
           Some (h', Inl (EvaluationError ''didn't get expected arguments'')) \<and>
         deref h' (length env_calls) \<noteq> None"
    by (simp add: ExecuteFunction_user[OF env_calls_chain env_calls_h] user_call_mismatch
        deref_append_new)
  show "\<exists>h'. ExecuteFunction eval_empty env_calls 2 ''h'' [4, 5] =
           Some (h', Inl (EvaluationError ''function didn't return anything'')) \<and>
         deref h' (length env_calls) \<noteq> None"
    by (simp add: ExecuteFunction_user[OF env_calls_chain env_calls_h] user_call_matching
        eval_empty_def finish_call_def deref_append_new)
  show "\<exists>h'. ExecuteFunction eval_123 env_calls 2 ''h'' [4, 5] =
           Some (h', Inr \<lparr>type = kSingle, data = Single 3\<rparr>) \<and>
         deref h' (length env_calls) = None"
    by (simp add: ExecuteFunction_user[OF env_calls_chain env_calls_h] user_call_matching
        eval_123_def finish_call_def deref_append_new)
qed

subsection \<open>The end of the scan\<close>

lemma ExecuteFunction_body_root:
  "parent t = None \<Longrightarrow> ExecuteFunction_body eval h this t name args \<noteq> Next"
  by (simp add: ExecuteFunction_body_def global_check_def split: option.splits func.splits)

lemma ExecuteFunction_loop_exits:
  "is_chain h a as \<Longrightarrow>
   \<exists>pre d post t r.
     as = pre @ d # post \<and>
     (\<forall>x\<in>set pre. \<exists>tx. deref h x = Some tx \<and> parent tx \<noteq> None \<and>
        ExecuteFunction_body eval h this tx name args = Next) \<and>
     deref h d = Some t \<and>
     ExecuteFunction_body eval h this t name args = Exit r \<and>
     ExecuteFunction_loop eval h this (Some a) name args = r"
proof (induction as arbitrary: a)
  case Nil
  then show ?case by simp
next
  case (Cons b bs)
  from Cons.prems obtain t where t: "a = b" "deref h b = Some t"
    by (auto split: option.splits)
  show ?case
  proof (cases "ExecuteFunction_body eval h this t name args")
    case (Exit r)
    with t have "ExecuteFunction_loop eval h this (Some a) name args = r"
      by (simp add: ExecuteFunction_loop.simps[of eval h this "Some b"])
    with Exit t have "b # bs = [] @ b # bs \<and>
        (\<forall>x\<in>set []. \<exists>tx. deref h x = Some tx \<and> parent tx \<noteq> None \<and>
           ExecuteFunction_body eval h this tx name args = Next) \<and>
        deref h b = Some t \<and>
        ExecuteFunction_body eval h this t name args = Exit r \<and>
        ExecuteFunction_loop eval h this (Some a) name args = r"
      by simp
    then show ?thesis by blast
  next
    case Next
    with ExecuteFunction_body_root[of t eval h this name args] obtain p
      where p: "parent t = Some p" by auto
    with Cons.prems t have "is_chain h p bs" by simp
    from Cons.IH[OF this] obtain pre d post td r where IH:
      "bs = pre @ d # post"
      "\<forall>x\<in>set pre. \<exists>tx. deref h x = Some tx \<and> parent tx \<noteq> None \<and>
           ExecuteFunction_body eval h this tx name args = Next"
      "deref h d = Some td"
      "ExecuteFunction_body eval h this td name args = Exit r"
      "ExecuteFunction_loop eval h this (Some p) name args = r"
      by blast
    from Next p t IH(5) have "ExecuteFunction_loop eval h this (Some a) name args = r"
      by (simp add: ExecuteFunction_loop.simps[of eval h this "Some b"])
    with IH Next p t have "b # bs = (b # pre) @ d # post \<and>
        (\<forall>x\<in>set (b # pre). \<exists>tx. deref h x = Some tx \<and> parent tx \<noteq> None \<and>
           ExecuteFunction_body eval h this tx name args = Next) \<and>
        deref h d = Some td \<and>
        ExecuteFunction_body eval h this td name args = Exit r \<and>
        ExecuteFunction_loop eval h this (Some a) name args = r"
      by simp
    then show ?thesis by blast
  qed
qed

lemma nearest_registration_Some:
  "nearest_registration h chain name = Some (d, func) \<Longrightarrow>
   d \<in> set chain \<and> (\<exists>t. deref h d = Some t \<and> functions t name = Some func)"
proof (induction chain)
  case Nil
  then show ?case by simp
next
  case (Cons a as)
  then show ?case by (auto split: option.splits)
qed

lemma native_at_root:
  assumes "native_only_at_root h chain name"
    and "nearest_registration h chain name = Some (d, Function f)"
  shows "is_root h d"
proof -
  from nearest_registration_Some[OF assms(2)] obtain t where
    t: "d \<in> set chain" "deref h d = Some t" "functions t name = Some (Function f)"
    by blast
  from assms(1) t(1) have "case deref h d of
      None \<Rightarrow> True
    | Some t \<Rightarrow>
        (case functions t name of
           None \<Rightarrow> True
         | Some func \<Rightarrow>
             (case func of
                Function f \<Rightarrow> parent t = None
              | FunctionDef statements params \<Rightarrow> True))"
    by (simp add: native_only_at_root_def list_all_iff)
  with t show ?thesis by (simp add: is_root_def)
qed

lemma finish_call_documented:
  assumes "sequence_or_documented E"
  shows "\<exists>h' res. finish_call n E = Some (h', res) \<and> returns_or_documented res"
proof -
  from assms obtain h1 x where E: "E = Some (h1, x)"
    by (cases E) (auto simp add: sequence_or_documented_def)
  show ?thesis
  proof (cases x)
    case (Inl e)
    with assms E show ?thesis
      by (simp add: sequence_or_documented_def finish_call_def returns_or_documented_def)
  next
    case (Inr res)
    with assms E obtain vs where vs: "data res = Sequence vs"
      by (cases "data res") (auto simp add: sequence_or_documented_def)
    show ?thesis
    proof (cases "vs = []")
      case True
      with E Inr vs show ?thesis
        by (simp add: finish_call_def returns_or_documented_def)
    next
      case False
      with E Inr vs show ?thesis
        by (simp add: finish_call_def returns_or_documented_def)
    qed
  qed
qed

lemma dispatch_documented:
  assumes "native_only_at_root h chain name"
    and "\<forall>d f. nearest_registration h chain name = Some (d, Function f) \<longrightarrow>
           returns_or_documented (f args)"
    and "\<forall>d b ps. nearest_registration h chain name = Some (d, FunctionDef b ps) \<longrightarrow>
           length ps = length args \<longrightarrow>
           sequence_or_documented
             (eval b (h @ [Some (call_frame this ps args)]) (length h))"
  shows "\<exists>h' res. dispatch eval h this chain name args = Some (h', res) \<and>
           returns_or_documented res"
proof (cases "nearest_registration h chain name")
  case None
  then show ?thesis by (simp add: dispatch_def returns_or_documented_def)
next
  case (Some p)
  obtain d func where p: "p = (d, func)" by (cases p)
  show ?thesis
  proof (cases func)
    case (Function f)
    with Some p have n: "nearest_registration h chain name = Some (d, Function f)" by simp
    from native_at_root[OF assms(1) n] assms(2) n show ?thesis
      by (simp add: dispatch_def)
  next
    case (FunctionDef b ps)
    with Some p have n: "nearest_registration h chain name = Some (d, FunctionDef b ps)"
      by simp
    show ?thesis
    proof (cases "length ps = length args")
      case True
      with assms(3) n have "sequence_or_documented
          (eval b (h @ [Some (call_frame this ps args)]) (length h))"
        by blast
      from finish_call_documented[OF this, of "length h"] n True show ?thesis
        by (simp add: dispatch_def user_call_matching)
    next
      case False
      with n show ?thesis
        by (simp add: dispatch_def user_call_mismatch returns_or_documented_def)
    qed
  qed
qed

text \<open>
  Claim C10 asks that on a finite chain the \<open>throw\<close> of line 98 is never reached
  and that the call always returns a result or throws one of the documented errors.
  The second part does not hold for every statement block: in \<open>env_calls\<close>, a body
  whose result holds a single value makes \<open>std::get\<close> at line 88 throw
  \<open>bad_variant_access\<close>, which is not a documented error (and the frame stays
  allocated), and a body whose evaluation does not come back leaves the call
  without an outcome.
\<close>

theorem ExecuteFunction_undocumented_outcome:
  "is_chain env_calls 2 [2, 1, 0] \<and>
   ExecuteFunction eval_single env_calls 2 ''h'' [4, 5] =
     Some (env_calls @ [Some (call_frame 2 [''a'', ''b''] [4, 5])], Inl bad_variant_access) \<and>
   \<not> documented bad_variant_access \<and>
   ExecuteFunction eval_never env_calls 2 ''h'' [4, 5] = None"
proof -
  have 1: "ExecuteFunction eval_single env_calls 2 ''h'' [4, 5] =
      Some (env_calls @ [Some (call_frame 2 [''a'', ''b''] [4, 5])], Inl bad_variant_access)"
    by (simp add: ExecuteFunction_user[OF env_calls_chain env_calls_h] user_call_matching
        eval_single_def finish_call_def)
  have 2: "ExecuteFunction eval_never env_calls 2 ''h'' [4, 5] = None"
    by (simp add: ExecuteFunction_user[OF env_calls_chain env_calls_h] user_call_matching
        eval_never_def finish_call_def)
  from env_calls_chain 1 2 show ?thesis by simp
qed

text \<open>
  Claim C10 as amended: on a finite chain the call leaves \<open>ExecuteFunction\<close> from
  inside the loop body, at a table \<open>d\<close> of the chain, and every table visited
  before \<open>d\<close> has a parent, so the loop variable is never null and line 98 is not
  reached. If moreover no table below the root registers a native callable under
  the name, the native callable that is run returns a result or throws a documented
  error, and the evaluation of the body that is called comes back with a sequence
  or a documented error, then the call returns a result or throws a documented
  error.
\<close>

theorem ExecuteFunction_exits_at_or_before_root:
  assumes "is_chain h this chain"
  shows "(\<exists>pre d post t r.
            chain = pre @ d # post \<and>
            (\<forall>a\<in>set pre. \<exists>ta. deref h a = Some ta \<and> parent ta \<noteq> None \<and>
               ExecuteFunction_body eval h this ta name args = Next) \<and>
            deref h d = Some t \<and>
            ExecuteFunction_body eval h this t name args = Exit r \<and>
            ExecuteFunction eval h this name args = r) \<and>
         (native_only_at_root h chain name \<longrightarrow>
          (\<forall>d f. nearest_registration h chain name = Some (d, Function f) \<longrightarrow>
             returns_or_documented (f args)) \<longrightarrow>
          (\<forall>d b ps. nearest_registration h chain name = Some (d, FunctionDef b ps) \<longrightarrow>
             length ps = length args \<longrightarrow>
             sequence_or_documented
               (eval b (h @ [Some (call_frame this ps args)]) (length h))) \<longrightarrow>
          (\<exists>h' res. ExecuteFunction eval h this name args = Some (h', res) \<and>
             returns_or_documented res))"
proof (intro conjI impI)
  show "\<exists>pre d post t r.
      chain = pre @ d # post \<and>
      (\<forall>a\<in>set pre. \<exists>ta. deref h a = Some ta \<and> parent ta \<noteq> None \<and>
         ExecuteFunction_body eval h this ta name args = Next) \<and>
      deref h d = Some t \<and>
      ExecuteFunction_body eval h this t name args = Exit r \<and>
      ExecuteFunction eval h this name args = r"
    using ExecuteFunction_loop_exits[OF assms, of eval this name args]
    by (simp add: ExecuteFunction_def)
next
  assume a: "native_only_at_root h chain name"
    and b: "\<forall>d f. nearest_registration h chain name = Some (d, Function f) \<longrightarrow>
           returns_or_documented (f args)"
    and c: "\<forall>d b ps. nearest_registration h chain name = Some (d, FunctionDef b ps) \<longrightarrow>
           length ps = length args \<longrightarrow>
           sequence_or_documented
             (eval b (h @ [Some (call_frame this ps args)]) (length h))"
  from dispatch_documented[where eval = eval and this = this and args = args, OF a b c]
  show "\<exists>h' res. ExecuteFunction eval h this name args = Some (h', res) \<and>
      returns_or_documented res"
    by (simp add: ExecuteFunction_def ExecuteFunction_loop_chain[OF assms])
qed

theorem ExecuteFunction_exits_at_or_before_root_witness:
  "is_chain env_calls 2 [2, 1, 0] \<and>
   native_only_at_root env_calls [2, 1, 0] ''f'' \<and>
   native_only_at_root env_calls [2, 1, 0] ''k'' \<and>
   sequence_or_documented
     (eval_123 6 (env_calls @ [Some (call_frame 2 [''a''] [7])]) (length env_calls)) \<and>
   ExecuteFunction eval_123 env_calls 2 ''f'' [7] =
     Some (env_calls @ [None], Inr \<lparr>type = kSingle, data = Single 3\<rparr>) \<and>
   returns_or_documented (Inr \<lparr>type = kSingle, data = Single (3::nat)\<rparr> :: error + nat Result) \<and>
   (\<exists>t. deref env_calls 0 = Some t \<and> parent t = None \<and>
      ExecuteFunction_body eval_123 env_calls 2 t ''k'' [7] =
        Exit (ExecuteFunction eval_123 env_calls 2 ''k'' [7])) \<and>
   ExecuteFunction eval_123 env_calls 2 ''k'' [7] =
     Some (env_calls, Inl (EvaluationError ''function 'k' not defined!'')) \<and>
   returns_or_documented
     (Inl (EvaluationError ''function 'k' not defined!'') :: error + nat Result)"
proof -
  note inst_k = ExecuteFunction_exits_at_or_before_root[OF env_calls_chain,
      of eval_123 "''k''" "[7]"]
  note inst_f = ExecuteFunction_exits_at_or_before_root[OF env_calls_chain,
      of eval_123 "''f''" "[7]"]
  have nf: "native_only_at_root env_calls [2, 1, 0] ''f''"
    by (simp add: native_only_at_root_def env_calls_def deref_def)
  have nk: "native_only_at_root env_calls [2, 1, 0] ''k''"
    by (simp add: native_only_at_root_def env_calls_def deref_def)
  have body: "sequence_or_documented
      (eval_123 6 (env_calls @ [Some (call_frame 2 [''a''] [7])]) (length env_calls))"
    by (simp add: sequence_or_documented_def eval_123_def)
  from inst_f nf body env_calls_f
  obtain h' res where f: "ExecuteFunction eval_123 env_calls 2 ''f'' [7] = Some (h', res)"
    "returns_or_documented res"
    by auto
  have f': "ExecuteFunction eval_123 env_calls 2 ''f'' [7] =
      Some (env_calls @ [None], Inr \<lparr>type = kSingle, data = Single 3\<rparr>)"
    by (simp add: ExecuteFunction_user[OF env_calls_chain env_calls_f] user_call_matching
        eval_123_def finish_call_def)
  from inst_k obtain pre d post t r where x:
    "[2, 1, 0] = pre @ d # post"
    "deref env_calls d = Some t"
    "ExecuteFunction_body eval_123 env_calls 2 t ''k'' [7] = Exit r"
    "ExecuteFunction eval_123 env_calls 2 ''k'' [7] = r"
    by blast
  from x(1) have "d \<in> set [2, 1, 0]" by (metis in_set_conv_decomp)
  then have "d = 2 \<or> d = 1 \<or> d = 0" by auto
  with x(2,3) have d: "d = 0" and
    r: "r = Some (env_calls, Inl (EvaluationError ''function 'k' not defined!''))"
    by (auto simp add: env_calls_def deref_def ExecuteFunction_body_def global_check_def)
  from x(2,3) d have k: "\<exists>t. deref env_calls 0 = Some t \<and> parent t = None \<and>
      ExecuteFunction_body eval_123 env_calls 2 t ''k'' [7] = Exit r"
    by (auto simp add: env_calls_def deref_def)
  from f f' have rf: "returns_or_documented
      (Inr \<lparr>type = kSingle, data = Single (3::nat)\<rparr> :: error + nat Result)"
    by simp
  have rk: "returns_or_documented
      (Inl (EvaluationError ''function 'k' not defined!'') :: error + nat Result)"
    by (simp add: returns_or_documented_def)
  from env_calls_chain nf nk body f' rf k x(4) r rk show ?thesis by simp
qed

section \<open>Assignment\<close>

lemma deref_list_update:
  "deref (h[a := c]) b = (if b = a \<and> a < length h then c else deref h b)"
  by (simp add: deref_def)

lemma deref_Some_less: "deref h a = Some t \<Longrightarrow> a < length h"
  by (simp add: deref_def split: if_splits)

text \<open>
  Claim C8: \<open>AssignVariable\<close> creates or overwrites the binding of the name in the
  current table and leaves every other table as it was. In particular, when the
  name is bound in the parent \<open>E1\<close> and not in the current table, the assignment
  binds it in the current table, and a later \<open>FindVariable\<close> on \<open>E1\<close> still returns
  the value \<open>E1\<close> had.
\<close>

theorem AssignVariable_local:
  assumes "deref h this = Some t"
  shows "\<exists>h'. AssignVariable h this name v = Inr h' \<and>
           deref h' this = Some (t\<lparr>variables := (variables t)(name \<mapsto> v)\<rparr>) \<and>
           (\<forall>a. a \<noteq> this \<longrightarrow> deref h' a = deref h a) \<and>
           FindVariable h' this name = Some (Inr v) \<and>
           (\<forall>E1 t1 v0. variables t name = None \<and> parent t = Some E1 \<and>
              deref h E1 = Some t1 \<and> variables t1 name = Some v0 \<longrightarrow>
              deref h' E1 = Some t1 \<and> FindVariable h' E1 name = Some (Inr v0))"
proof -
  let ?t' = "t\<lparr>variables := (variables t)(name \<mapsto> v)\<rparr>"
  let ?h' = "h[this := Some ?t']"
  from assms have lt: "this < length h" by (rule deref_Some_less)
  from assms have A: "AssignVariable h this name v = Inr ?h'"
    by (simp add: AssignVariable_def set_variable_def)
  from lt have here: "deref ?h' this = Some ?t'" by (simp add: deref_list_update)
  have other: "deref ?h' a = deref h a" if "a \<noteq> this" for a
    using that by (simp add: deref_list_update)
  have find: "FindVariable ?h' this name = Some (Inr v)"
    by (rule FindVariable_local_hit[OF here]) simp
  have outer: "deref ?h' E1 = Some t1 \<and> FindVariable ?h' E1 name = Some (Inr v0)"
    if "variables t name = None" "deref h E1 = Some t1" "variables t1 name = Some v0"
    for E1 t1 v0
  proof -
    from that assms have "E1 \<noteq> this" by auto
    with that other have d: "deref ?h' E1 = Some t1" by simp
    from this FindVariable_local_hit[OF d that(3)] show ?thesis by simp
  qed
  from A here other find outer show ?thesis by blast
qed

theorem AssignVariable_local_witness:
  "deref env3 1 = Some \<lparr>variables = Map.empty, functions = Map.empty, parent = Some 0\<rparr> \<and>
   (\<exists>h'. AssignVariable env3 1 ''x'' 5 = Inr h' \<and>
      deref h' 1 = Some \<lparr>variables = [''x'' \<mapsto> 5], functions = Map.empty, parent = Some 0\<rparr> \<and>
      deref h' 0 = deref env3 0 \<and> deref h' 2 = deref env3 2 \<and>
      FindVariable h' 1 ''x'' = Some (Inr 5) \<and>
      FindVariable h' 0 ''x'' = Some (Inr 7))"
proof -
  let ?t = "\<lparr>variables = Map.empty, functions = Map.empty, parent = Some 0\<rparr> :: (nat, unit) SymTable"
  let ?t1 = "\<lparr>variables = [''x'' \<mapsto> 7], functions = Map.empty, parent = None\<rparr> :: (nat, unit) SymTable"
  have t: "deref env3 1 = Some ?t" by (simp add: env3_def deref_def)
  have t1: "deref env3 0 = Some ?t1" by (simp add: env3_def deref_def)
  from AssignVariable_local[OF t, of "''x''" 5] obtain h' where h':
    "AssignVariable env3 1 ''x'' 5 = Inr h'"
    "deref h' 1 = Some (?t\<lparr>variables := (variables ?t)(''x'' \<mapsto> 5)\<rparr>)"
    "\<forall>a. a \<noteq> 1 \<longrightarrow> deref h' a = deref env3 a"
    "FindVariable h' 1 ''x'' = Some (Inr 5)"
    "\<forall>E1 t1 v0. variables ?t ''x'' = None \<and> parent ?t = Some E1 \<and>
              deref env3 E1 = Some t1 \<and> variables t1 ''x'' = Some v0 \<longrightarrow>
              deref h' E1 = Some t1 \<and> FindVariable h' E1 ''x'' = Some (Inr v0)"
    by blast
  from h'(5) t1 have "FindVariable h' 0 ''x'' = Some (Inr 7)"
    by simp
  moreover from h'(3) have "deref h' 0 = deref env3 0" "deref h' 2 = deref env3 2" by simp_all
  moreover from h'(2) have "deref h' 1 =
      Some \<lparr>variables = [''x'' \<mapsto> 5], functions = Map.empty, parent = Some 0\<rparr>"
    by simp
  ultimately show ?thesis using t h'(1,4) by blast
qed

end
